theory Spec2Isabelle
  imports Complex_Main
begin

section \<open>Catalog data supplied by the music-theory data module\<close>

text \<open>
  The component imports three constant tables from the data module: the group metadata, the
  themes of each group, and the flattened table of all themes. They are JavaScript objects;
  an association list keeps their key order (the order of \<open>Object.entries\<close> and
  \<open>Object.keys\<close>), and a property read \<open>obj[k]\<close> is \<open>map_of\<close>, a missing key reading as
  \<open>undefined\<close>. A read by a name that is no key of the table does not stop there: it walks
  the prototype chain, and for a name found on it (\<open>toString\<close>, \<open>constructor\<close>, ... on an
  ordinary object) it yields the inherited member, a function or object that is truthy and is
  no theme. \<open>inheritedNames\<close> lists the names the tables inherit in this way. The tables are a
  parameter of every function that reads them.
  Of a theme only \<open>primaryName\<close> reaches the state of the component; the descriptive lists
  feed the markup of the detail panels, which is not modelled beyond its hidden flag.
\<close>

record theme =
  primaryName :: string
  names :: "string list"
  pattern :: "nat list"

record groupMetadata =
  displayName :: string
  description :: string

record catalog =
  noteSequenceThemeGroupsMetadata :: "(string \<times> groupMetadata) list"
  noteSequenceThemes :: "(string \<times> (string \<times> theme) list) list"
  allNoteSequenceThemes :: "(string \<times> theme) list"
  inheritedNames :: "string list"

text \<open>The property names an object literal inherits from \<open>Object.prototype\<close>.\<close>

definition objectPrototypeNames :: "string list" where
  "objectPrototypeNames =
     [''constructor'', ''__defineGetter__'', ''__defineSetter__'', ''hasOwnProperty'',
      ''__lookupGetter__'', ''__lookupSetter__'', ''isPrototypeOf'', ''propertyIsEnumerable'',
      ''toString'', ''valueOf'', ''__proto__'', ''toLocaleString'']"

section \<open>JavaScript values held by the component\<close>

text \<open>
  The two private selection fields are typed \<open>T | null\<close>, but a missed lookup stores
  \<open>undefined\<close>, a lookup by an inherited name stores the inherited member (\<open>TInherited\<close>,
  with the name it was read by), and the code tests both truthiness and \<open>!== null\<close>, so the
  cases are kept apart. The \<open>log\<close> records what the component emits (the custom event, console
  diagnostics) together with two marks of internal activity: each run of the property setter
  and each construction of the list. A thrown \<open>TypeError\<close> (a property read on \<open>null\<close>) is
  the \<open>Inl\<close> result; the half-updated state it leaves behind is not tracked.

  Each private element reference is \<open>None\<close> when \<open>querySelector\<close> found nothing; otherwise it
  carries what the code reads or writes on the element: the button's text, whether the dialog
  is open, the children of the list container, whether the checkbox is checked. The single
  observed attribute of the host element is \<open>attribute\<close>.
\<close>

datatype js_error = TypeError

datatype key_val = KNull | KUndefined | KStr string

datatype theme_val = TNull | TUndefined | TInherited string | TTheme theme

datatype effect =
    NoteSequenceSelected key_val theme_val
  | ConsoleWarn
  | ConsoleError
  | SetterInvoked key_val
  | ListBuilt

datatype listener = ShowModal | CloseDialog | ToggleMoreInfo

datatype noteSequenceDiv =
  NoteSequenceDiv (optionKey: string) (optionTheme: theme) (themeMoreInfoHidden: bool)

datatype groupDiv =
  GroupDiv (heading: string) (groupDescription: string) (groupMoreInfoHidden: bool)
    (groupNoteSequencesWrapper: "noteSequenceDiv list")

record selector =
  noteSequenceSelectorButton :: "string option"
  noteSequenceSelectorDialog :: "bool option"
  noteSequencesContainer :: "groupDiv list option"
  toggleMoreInfoCheckbox :: "bool option"
  closeDialogButton :: bool
  abortController :: "nat option"
  controllersCreated :: nat
  listeners :: "(nat \<times> listener) list"
  selectedNoteSequenceThemeKey :: key_val
  selectedNoteSequenceTheme :: theme_val
  attribute :: "string option"
  log :: "effect list"

definition constructor :: selector where
  "constructor =
     \<lparr>noteSequenceSelectorButton = Some ''Select Sequence'',
      noteSequenceSelectorDialog = Some False,
      noteSequencesContainer = Some [],
      toggleMoreInfoCheckbox = Some False,
      closeDialogButton = True,
      abortController = None,
      controllersCreated = 0,
      listeners = [],
      selectedNoteSequenceThemeKey = KNull,
      selectedNoteSequenceTheme = TNull,
      attribute = None,
      log = []\<rparr>"

definition observedAttribute :: string where
  "observedAttribute = ''selected-note-sequence-theme-key''"

text \<open>
  A key is truthy exactly when it is a non-empty string; \<open>reflected\<close> is the attribute value
  the reflection step aims at: the key when it is truthy, no attribute otherwise.
\<close>

fun reflected :: "key_val \<Rightarrow> string option" where
  "reflected (KStr v) = (if v \<noteq> [] then Some v else None)"
| "reflected KNull = None"
| "reflected KUndefined = None"

fun keyOfAttribute :: "string option \<Rightarrow> key_val" where
  "keyOfAttribute None = KNull"
| "keyOfAttribute (Some v) = KStr v"

definition lookupTheme :: "catalog \<Rightarrow> string \<Rightarrow> theme_val" where
  "lookupTheme cat k =
     (case map_of (allNoteSequenceThemes cat) k of
        Some t \<Rightarrow> TTheme t
      | None \<Rightarrow> if k \<in> set (inheritedNames cat) then TInherited k else TUndefined)"

text \<open>
  The trigger's text: \<open>theme ? theme.primaryName : "Select Sequence"\<close>. An inherited member is
  truthy and has no \<open>primaryName\<close>; assigning the resulting \<open>undefined\<close> to \<open>textContent\<close>
  leaves the button with the empty text.
\<close>

definition buttonText :: "theme_val \<Rightarrow> string" where
  "buttonText t =
     (case t of
        TTheme th \<Rightarrow> primaryName th
      | TInherited _ \<Rightarrow> []
      | _ \<Rightarrow> ''Select Sequence'')"

definition updateNoteSequenceSelectorButtonText :: "selector \<Rightarrow> js_error + selector" where
  "updateNoteSequenceSelectorButtonText s =
     (case noteSequenceSelectorButton s of
        None \<Rightarrow> Inl TypeError
      | Some _ \<Rightarrow>
          Inr (s\<lparr>noteSequenceSelectorButton := Some (buttonText (selectedNoteSequenceTheme s))\<rparr>))"

definition dispatchNoteSequenceSelectedEvent :: "selector \<Rightarrow> selector" where
  "dispatchNoteSequenceSelectedEvent s =
     (if selectedNoteSequenceThemeKey s \<noteq> KNull \<and> selectedNoteSequenceTheme s \<noteq> TNull
      then s\<lparr>log := log s @
             [NoteSequenceSelected (selectedNoteSequenceThemeKey s) (selectedNoteSequenceTheme s)]\<rparr>
      else s\<lparr>log := log s @ [ConsoleWarn]\<rparr>)"

text \<open>
  The platform calls \<open>attributeChangedCallback\<close> synchronously from inside
  \<open>setAttribute\<close> (on every call, also when the value is unchanged) and from inside
  \<open>removeAttribute\<close> (only when the attribute exists), so the setter, the reflection step, the
  two attribute operations and the callback call each other. \<open>pending\<close> counts the attribute
  writes still to come; it bounds the recursion.
\<close>

definition pending :: "key_val \<Rightarrow> string option \<Rightarrow> nat" where
  "pending k a = (if reflected k = a then 0 else 1)"

function set_selectedNoteSequenceThemeKey :: "catalog \<Rightarrow> key_val \<Rightarrow> selector \<Rightarrow> js_error + selector"
  and updateSelectedNoteSequenceAttribute :: "catalog \<Rightarrow> selector \<Rightarrow> js_error + selector"
  and setAttribute :: "catalog \<Rightarrow> string \<Rightarrow> selector \<Rightarrow> js_error + selector"
  and removeAttribute :: "catalog \<Rightarrow> selector \<Rightarrow> js_error + selector"
  and attributeChangedCallback ::
    "catalog \<Rightarrow> string \<Rightarrow> string option \<Rightarrow> string option \<Rightarrow> selector \<Rightarrow> js_error + selector"
where
  "set_selectedNoteSequenceThemeKey cat k s =
     (case updateNoteSequenceSelectorButtonText
             (s\<lparr>selectedNoteSequenceThemeKey := k,
                selectedNoteSequenceTheme :=
                  (case k of KStr v \<Rightarrow> if v \<noteq> [] then lookupTheme cat v else TNull | _ \<Rightarrow> TNull),
                log := log s @ [SetterInvoked k]\<rparr>) of
        Inl e \<Rightarrow> Inl e
      | Inr s1 \<Rightarrow> updateSelectedNoteSequenceAttribute cat s1)"
| "updateSelectedNoteSequenceAttribute cat s =
     (case reflected (selectedNoteSequenceThemeKey s) of
        Some v \<Rightarrow> setAttribute cat v s
      | None \<Rightarrow> removeAttribute cat s)"
| "setAttribute cat v s =
     attributeChangedCallback cat observedAttribute (attribute s) (Some v) (s\<lparr>attribute := Some v\<rparr>)"
| "removeAttribute cat s =
     (case attribute s of
        None \<Rightarrow> Inr s
      | Some old \<Rightarrow>
          attributeChangedCallback cat observedAttribute (Some old) None (s\<lparr>attribute := None\<rparr>))"
| "attributeChangedCallback cat name oldValue newValue s =
     (if oldValue = newValue then Inr s
      else if name = observedAttribute then
        (case set_selectedNoteSequenceThemeKey cat (keyOfAttribute newValue) s of
           Inl e \<Rightarrow> Inl e
         | Inr s1 \<Rightarrow> Inr (dispatchNoteSequenceSelectedEvent s1))
      else Inr s)"
  by pat_completeness auto

termination
  apply (relation "measure (\<lambda>x. case x of
          Inl (Inl (cat, k, s)) \<Rightarrow> 4 * pending k (attribute s) + 3
        | Inl (Inr (cat, s)) \<Rightarrow> 4 * pending (selectedNoteSequenceThemeKey s) (attribute s) + 2
        | Inr (Inl (cat, v, s)) \<Rightarrow>
            (if attribute s = Some v then 1 else 4 * pending (KStr v) (Some v) + 5)
        | Inr (Inr (Inl (cat, s))) \<Rightarrow> (if attribute s = None then 1 else 5)
        | Inr (Inr (Inr (cat, name, oldValue, newValue, s))) \<Rightarrow>
            (if oldValue = newValue \<or> name \<noteq> observedAttribute then 0
             else 4 * pending (keyOfAttribute newValue) (attribute s) + 4))")
proof goal_cases
  case 1
  show ?case by simp
next
  case (2 cat k s b)
  then have "selectedNoteSequenceThemeKey b = k" "attribute b = attribute s"
    by (auto simp: updateNoteSequenceSelectorButtonText_def split: option.splits)
  then show ?case by simp
next
  case (3 cat s)
  then show ?case by (simp add: pending_def)
next
  case (4 cat s v)
  then have "v \<noteq> []"
    by (cases "selectedNoteSequenceThemeKey s") (auto split: if_splits)
  with 4 show ?case by (simp add: pending_def)
next
  case (5 cat v s)
  show ?case by (simp add: pending_def)
next
  case (6 cat s old)
  then show ?case by (simp add: pending_def)
next
  case (7 cat name oldValue newValue s)
  then show ?case by simp
qed


text \<open>
  The earlier revision of the component: its attribute callback forwards the new value to the
  setter and emits nothing.
\<close>

function set_selectedNoteSequenceThemeKey0 :: "catalog \<Rightarrow> key_val \<Rightarrow> selector \<Rightarrow> js_error + selector"
  and updateSelectedNoteSequenceAttribute0 :: "catalog \<Rightarrow> selector \<Rightarrow> js_error + selector"
  and setAttribute0 :: "catalog \<Rightarrow> string \<Rightarrow> selector \<Rightarrow> js_error + selector"
  and removeAttribute0 :: "catalog \<Rightarrow> selector \<Rightarrow> js_error + selector"
  and attributeChangedCallback0 ::
    "catalog \<Rightarrow> string \<Rightarrow> string option \<Rightarrow> string option \<Rightarrow> selector \<Rightarrow> js_error + selector"
where
  "set_selectedNoteSequenceThemeKey0 cat k s =
     (case updateNoteSequenceSelectorButtonText
             (s\<lparr>selectedNoteSequenceThemeKey := k,
                selectedNoteSequenceTheme :=
                  (case k of KStr v \<Rightarrow> if v \<noteq> [] then lookupTheme cat v else TNull | _ \<Rightarrow> TNull),
                log := log s @ [SetterInvoked k]\<rparr>) of
        Inl e \<Rightarrow> Inl e
      | Inr s1 \<Rightarrow> updateSelectedNoteSequenceAttribute0 cat s1)"
| "updateSelectedNoteSequenceAttribute0 cat s =
     (case reflected (selectedNoteSequenceThemeKey s) of
        Some v \<Rightarrow> setAttribute0 cat v s
      | None \<Rightarrow> removeAttribute0 cat s)"
| "setAttribute0 cat v s =
     attributeChangedCallback0 cat observedAttribute (attribute s) (Some v) (s\<lparr>attribute := Some v\<rparr>)"
| "removeAttribute0 cat s =
     (case attribute s of
        None \<Rightarrow> Inr s
      | Some old \<Rightarrow>
          attributeChangedCallback0 cat observedAttribute (Some old) None (s\<lparr>attribute := None\<rparr>))"
| "attributeChangedCallback0 cat name oldValue newValue s =
     (if oldValue = newValue then Inr s
      else if name = observedAttribute then
        set_selectedNoteSequenceThemeKey0 cat (keyOfAttribute newValue) s
      else Inr s)"
  by pat_completeness auto

termination
  apply (relation "measure (\<lambda>x. case x of
          Inl (Inl (cat, k, s)) \<Rightarrow> 4 * pending k (attribute s) + 3
        | Inl (Inr (cat, s)) \<Rightarrow> 4 * pending (selectedNoteSequenceThemeKey s) (attribute s) + 2
        | Inr (Inl (cat, v, s)) \<Rightarrow>
            (if attribute s = Some v then 1 else 4 * pending (KStr v) (Some v) + 5)
        | Inr (Inr (Inl (cat, s))) \<Rightarrow> (if attribute s = None then 1 else 5)
        | Inr (Inr (Inr (cat, name, oldValue, newValue, s))) \<Rightarrow>
            (if oldValue = newValue \<or> name \<noteq> observedAttribute then 0
             else 4 * pending (keyOfAttribute newValue) (attribute s) + 4))")
proof goal_cases
  case 1
  show ?case by simp
next
  case (2 cat k s b)
  then have "selectedNoteSequenceThemeKey b = k" "attribute b = attribute s"
    by (auto simp: updateNoteSequenceSelectorButtonText_def split: option.splits)
  then show ?case by simp
next
  case (3 cat s)
  then show ?case by (simp add: pending_def)
next
  case (4 cat s v)
  then have "v \<noteq> []"
    by (cases "selectedNoteSequenceThemeKey s") (auto split: if_splits)
  with 4 show ?case by (simp add: pending_def)
next
  case (5 cat v s)
  show ?case by (simp add: pending_def)
next
  case (6 cat s old)
  then show ?case by (simp add: pending_def)
next
  case (7 cat name oldValue newValue s)
  then show ?case by simp
qed

section \<open>List construction and the visibility toggle\<close>

text \<open>
  \<open>Object.entries(noteSequenceThemes[groupKey])\<close>: the entries of the group, none for an
  inherited member (it has no enumerable property of its own), and a \<open>TypeError\<close> (here
  \<open>None\<close>) when the read yields \<open>undefined\<close>.
\<close>

definition currentGroupEntries :: "catalog \<Rightarrow> string \<Rightarrow> (string \<times> theme) list option" where
  "currentGroupEntries cat groupKey =
     (case map_of (noteSequenceThemes cat) groupKey of
        Some currentGroup \<Rightarrow> Some currentGroup
      | None \<Rightarrow> if groupKey \<in> set (inheritedNames cat) then Some [] else None)"

fun buildGroups :: "catalog \<Rightarrow> (string \<times> groupMetadata) list \<Rightarrow> js_error + groupDiv list" where
  "buildGroups cat [] = Inr []"
| "buildGroups cat ((groupKey, md) # rest) =
     (case currentGroupEntries cat groupKey of
        None \<Rightarrow> Inl TypeError
      | Some currentGroup \<Rightarrow>
          (case buildGroups cat rest of
             Inl e \<Rightarrow> Inl e
           | Inr gs \<Rightarrow>
               Inr (GroupDiv (displayName md) (description md) True
                      (map (\<lambda>(key, th). NoteSequenceDiv key th True) currentGroup) # gs)))"

definition populateNoteSequences :: "catalog \<Rightarrow> selector \<Rightarrow> js_error + selector" where
  "populateNoteSequences cat s =
     (case noteSequencesContainer s of
        None \<Rightarrow> Inr s
      | Some _ \<Rightarrow>
          (case buildGroups cat (noteSequenceThemeGroupsMetadata cat) of
             Inl e \<Rightarrow> Inl e
           | Inr gs \<Rightarrow> Inr (s\<lparr>noteSequencesContainer := Some gs, log := log s @ [ListBuilt]\<rparr>)))"

fun toggleHidden :: "bool \<Rightarrow> groupDiv \<Rightarrow> groupDiv" where
  "toggleHidden h (GroupDiv title ds _ opts) =
     GroupDiv title ds h (map (\<lambda>d. NoteSequenceDiv (optionKey d) (optionTheme d) h) opts)"

fun moreInfoDivs :: "groupDiv \<Rightarrow> bool list" where
  "moreInfoDivs (GroupDiv _ _ h opts) = h # map themeMoreInfoHidden opts"

definition moreInfoElements :: "selector \<Rightarrow> bool list" where
  "moreInfoElements s =
     (case noteSequencesContainer s of
        None \<Rightarrow> []
      | Some gs \<Rightarrow> concat (map moreInfoDivs gs))"

definition updateMoreInfoVisibility :: "selector \<Rightarrow> js_error + selector" where
  "updateMoreInfoVisibility s =
     (case noteSequencesContainer s of
        None \<Rightarrow> Inr s
      | Some gs \<Rightarrow>
          if gs = [] then Inr s
          else (case toggleMoreInfoCheckbox s of
                  None \<Rightarrow> Inl TypeError
                | Some checked \<Rightarrow>
                    Inr (s\<lparr>noteSequencesContainer := Some (map (toggleHidden (\<not> checked)) gs)\<rparr>)))"

section \<open>Lifecycle callbacks\<close>

definition connectedCallback :: "catalog \<Rightarrow> selector \<Rightarrow> js_error + selector" where
  "connectedCallback cat s =
     (let n = controllersCreated s;
          s0 = s\<lparr>abortController := Some n, controllersCreated := Suc n\<rparr>
      in if noteSequenceSelectorButton s0 \<noteq> None \<and> noteSequenceSelectorDialog s0 \<noteq> None \<and>
            noteSequencesContainer s0 \<noteq> None \<and> toggleMoreInfoCheckbox s0 \<noteq> None
         then
           (let s1 = s0\<lparr>listeners := listeners s0 @ [(n, ShowModal)]\<rparr>
            in if \<not> closeDialogButton s1 then Inl TypeError
               else
                 (case populateNoteSequences cat
                         (s1\<lparr>listeners := listeners s1 @ [(n, CloseDialog), (n, ToggleMoreInfo)]\<rparr>) of
                    Inl e \<Rightarrow> Inl e
                  | Inr s2 \<Rightarrow>
                      (case updateNoteSequenceSelectorButtonText s2 of
                         Inl e \<Rightarrow> Inl e
                       | Inr s3 \<Rightarrow> updateSelectedNoteSequenceAttribute cat s3)))
         else Inr (s0\<lparr>log := log s0 @ [ConsoleError]\<rparr>))"

definition disconnectedCallback :: "selector \<Rightarrow> selector" where
  "disconnectedCallback s =
     (case abortController s of
        None \<Rightarrow> s
      | Some n \<Rightarrow> s\<lparr>listeners := filter (\<lambda>(c, l). c \<noteq> n) (listeners s)\<rparr>)"

section \<open>Selection by click and at random\<close>

definition noteSequenceDivClick :: "catalog \<Rightarrow> string \<Rightarrow> theme \<Rightarrow> selector \<Rightarrow> js_error + selector" where
  "noteSequenceDivClick cat key th s =
     (case updateNoteSequenceSelectorButtonText
             (s\<lparr>selectedNoteSequenceThemeKey := KStr key, selectedNoteSequenceTheme := TTheme th\<rparr>) of
        Inl e \<Rightarrow> Inl e
      | Inr s1 \<Rightarrow>
          (case updateSelectedNoteSequenceAttribute cat s1 of
             Inl e \<Rightarrow> Inl e
           | Inr s2 \<Rightarrow>
               (case noteSequenceSelectorDialog s2 of
                  None \<Rightarrow> Inl TypeError
                | Some _ \<Rightarrow> Inr (s2\<lparr>noteSequenceSelectorDialog := Some False\<rparr>))))"

definition setRandomNoteSequence :: "catalog \<Rightarrow> real \<Rightarrow> selector \<Rightarrow> js_error + selector" where
  "setRandomNoteSequence cat random s =
     (let allNoteSequenceThemesKeys = map fst (allNoteSequenceThemes cat);
          randomIndex = nat \<lfloor>random * real (length allNoteSequenceThemesKeys)\<rfloor>
      in set_selectedNoteSequenceThemeKey cat
           (if randomIndex < length allNoteSequenceThemesKeys
            then KStr (allNoteSequenceThemesKeys ! randomIndex) else KUndefined) s)"

section \<open>User interaction and runs of the component\<close>

definition toggleMoreInfoCheckboxChange :: "bool \<Rightarrow> selector \<Rightarrow> js_error + selector" where
  "toggleMoreInfoCheckboxChange b s =
     (case toggleMoreInfoCheckbox s of
        None \<Rightarrow> Inr s
      | Some _ \<Rightarrow>
          (let s1 = s\<lparr>toggleMoreInfoCheckbox := Some b\<rparr>
           in if ToggleMoreInfo \<in> snd ` set (listeners s1)
              then updateMoreInfoVisibility s1 else Inr s1))"

datatype operation =
    SetProperty key_val
  | HostSetAttribute string
  | HostRemoveAttribute
  | ClickNoteSequenceDiv nat nat
  | SetRandom real
  | ChangeCheckbox bool
  | Connect
  | Disconnect

definition step :: "catalog \<Rightarrow> operation \<Rightarrow> selector \<Rightarrow> js_error + selector" where
  "step cat opn s =
     (case opn of
        SetProperty k \<Rightarrow> set_selectedNoteSequenceThemeKey cat k s
      | HostSetAttribute v \<Rightarrow> setAttribute cat v s
      | HostRemoveAttribute \<Rightarrow> removeAttribute cat s
      | ClickNoteSequenceDiv i j \<Rightarrow>
          (case noteSequencesContainer s of
             None \<Rightarrow> Inr s
           | Some gs \<Rightarrow>
               if i < length gs \<and> j < length (groupNoteSequencesWrapper (gs ! i))
               then noteSequenceDivClick cat
                      (optionKey (groupNoteSequencesWrapper (gs ! i) ! j))
                      (optionTheme (groupNoteSequencesWrapper (gs ! i) ! j)) s
               else Inr s)
      | SetRandom r \<Rightarrow> setRandomNoteSequence cat r s
      | ChangeCheckbox b \<Rightarrow> toggleMoreInfoCheckboxChange b s
      | Connect \<Rightarrow> connectedCallback cat s
      | Disconnect \<Rightarrow> Inr (disconnectedCallback s))"

fun run :: "catalog \<Rightarrow> operation list \<Rightarrow> selector \<Rightarrow> js_error + selector" where
  "run cat [] s = Inr s"
| "run cat (opn # ops) s =
     (case step cat opn s of Inl e \<Rightarrow> Inl e | Inr s1 \<Rightarrow> run cat ops s1)"

fun notifications :: "effect list \<Rightarrow> (key_val \<times> theme_val) list" where
  "notifications [] = []"
| "notifications (NoteSequenceSelected k t # es) = (k, t) # notifications es"
| "notifications (e # es) = notifications es"

text \<open>The state the property setter leaves before it reflects the key onto the attribute.\<close>

definition resolvedTheme :: "catalog \<Rightarrow> key_val \<Rightarrow> theme_val" where
  "resolvedTheme cat k =
     (case k of KStr v \<Rightarrow> if v \<noteq> [] then lookupTheme cat v else TNull | _ \<Rightarrow> TNull)"

definition setterState :: "catalog \<Rightarrow> key_val \<Rightarrow> selector \<Rightarrow> selector" where
  "setterState cat k s =
     s\<lparr>selectedNoteSequenceThemeKey := k,
       selectedNoteSequenceTheme := resolvedTheme cat k,
       log := log s @ [SetterInvoked k],
       noteSequenceSelectorButton := Some (buttonText (resolvedTheme cat k))\<rparr>"

text \<open>What every run from a freshly constructed element maintains.\<close>

definition inSync :: "selector \<Rightarrow> bool" where
  "inSync s \<longleftrightarrow>
     noteSequenceSelectorButton s \<noteq> None \<and> noteSequenceSelectorDialog s \<noteq> None \<and>
     attribute s = reflected (selectedNoteSequenceThemeKey s)"

text \<open>
  The invariant of the selection state: no key and no theme, or a key together with the
  flattened catalog's record for it.
\<close>

definition consistentSelection :: "catalog \<Rightarrow> selector \<Rightarrow> bool" where
  "consistentSelection cat s =
     (case selectedNoteSequenceThemeKey s of
        KNull \<Rightarrow> selectedNoteSequenceTheme s = TNull
      | KUndefined \<Rightarrow> False
      | KStr v \<Rightarrow>
          (case map_of (allNoteSequenceThemes cat) v of
             None \<Rightarrow> False
           | Some t \<Rightarrow> selectedNoteSequenceTheme s = TTheme t))"

text \<open>A two-theme catalog for concrete evaluation.\<close>

definition ionian :: theme where
  "ionian = \<lparr>primaryName = ''Ionian'', names = [''Major''], pattern = [2, 2, 1, 2, 2, 2, 1]\<rparr>"

definition dorian :: theme where
  "dorian = \<lparr>primaryName = ''Dorian'', names = [], pattern = [2, 1, 2, 2, 2, 1, 2]\<rparr>"

definition demoCatalog :: catalog where
  "demoCatalog =
     \<lparr>noteSequenceThemeGroupsMetadata =
        [(''diatonic'', \<lparr>displayName = ''Diatonic Modes'', description = ''Seven modes''\<rparr>)],
      noteSequenceThemes = [(''diatonic'', [(''ionian'', ionian), (''dorian'', dorian)])],
      allNoteSequenceThemes = [(''ionian'', ionian), (''dorian'', dorian)],
      inheritedNames = objectPrototypeNames\<rparr>"

definition ionianSelected :: selector where
  "ionianSelected =
     constructor
       \<lparr>noteSequenceSelectorButton := Some ''Ionian'',
        selectedNoteSequenceThemeKey := KStr ''ionian'',
        selectedNoteSequenceTheme := TTheme ionian,
        attribute := Some ''ionian'',
        log := [SetterInvoked (KStr ''ionian''), SetterInvoked (KStr ''ionian''),
                NoteSequenceSelected (KStr ''ionian'') (TTheme ionian)]\<rparr>"

definition demoList :: "groupDiv list" where
  "demoList =
     [GroupDiv ''Diatonic Modes'' ''Seven modes'' True
        [NoteSequenceDiv ''ionian'' ionian True, NoteSequenceDiv ''dorian'' dorian True]]"

definition connectedDemo :: selector where
  "connectedDemo =
     constructor
       \<lparr>noteSequencesContainer := Some demoList,
        abortController := Some 0,
        controllersCreated := 1,
        listeners := [(0, ShowModal), (0, CloseDialog), (0, ToggleMoreInfo)],
        log := [ListBuilt]\<rparr>"

text \<open>The state after a change of the checkbox whose listener is bound.\<close>

definition afterChange :: "bool \<Rightarrow> selector \<Rightarrow> selector" where
  "afterChange b s =
     (case noteSequencesContainer s of
        None \<Rightarrow> s\<lparr>toggleMoreInfoCheckbox := Some b\<rparr>
      | Some gs \<Rightarrow>
          s\<lparr>toggleMoreInfoCheckbox := Some b,
            noteSequencesContainer := Some (map (toggleHidden (\<not> b)) gs)\<rparr>)"

section \<open>The setter in closed form\<close>

lemmas selection_simps =
  set_selectedNoteSequenceThemeKey.simps updateSelectedNoteSequenceAttribute.simps
  setAttribute.simps removeAttribute.simps attributeChangedCallback.simps

lemmas selection0_simps =
  set_selectedNoteSequenceThemeKey0.simps updateSelectedNoteSequenceAttribute0.simps
  setAttribute0.simps removeAttribute0.simps attributeChangedCallback0.simps

declare selection_simps [simp del]

declare selection0_simps [simp del]

lemma buttonText_update:
  "noteSequenceSelectorButton s \<noteq> None \<Longrightarrow>
   updateNoteSequenceSelectorButtonText s =
     Inr (s\<lparr>noteSequenceSelectorButton := Some (buttonText (selectedNoteSequenceTheme s))\<rparr>)"
  by (auto simp: updateNoteSequenceSelectorButtonText_def)

lemma setAttribute_same: "attribute s = Some v \<Longrightarrow> setAttribute cat v s = Inr s"
proof -
  assume a: "attribute s = Some v"
  then have "s\<lparr>attribute := Some v\<rparr> = s" by (cases s) simp
  with a show ?thesis by (simp add: setAttribute.simps attributeChangedCallback.simps)
qed

lemma removeAttribute_absent: "attribute s = None \<Longrightarrow> removeAttribute cat s = Inr s"
  by (simp add: removeAttribute.simps)

lemma update_in_sync:
  "reflected (selectedNoteSequenceThemeKey s) = attribute s \<Longrightarrow>
   updateSelectedNoteSequenceAttribute cat s = Inr s"
  by (cases "attribute s")
     (simp_all add: updateSelectedNoteSequenceAttribute.simps setAttribute_same
        removeAttribute_absent)

lemma setter_unfold:
  "noteSequenceSelectorButton s \<noteq> None \<Longrightarrow>
   set_selectedNoteSequenceThemeKey cat k s =
     updateSelectedNoteSequenceAttribute cat (setterState cat k s)"
  by (simp add: set_selectedNoteSequenceThemeKey.simps buttonText_update setterState_def
      resolvedTheme_def)

lemma setterState_fields [simp]:
  "selectedNoteSequenceThemeKey (setterState cat k s) = k"
  "selectedNoteSequenceTheme (setterState cat k s) = resolvedTheme cat k"
  "attribute (setterState cat k s) = attribute s"
  "noteSequenceSelectorButton (setterState cat k s) = Some (buttonText (resolvedTheme cat k))"
  "log (setterState cat k s) = log s @ [SetterInvoked k]"
  "noteSequenceSelectorDialog (setterState cat k s) = noteSequenceSelectorDialog s"
  "noteSequencesContainer (setterState cat k s) = noteSequencesContainer s"
  "toggleMoreInfoCheckbox (setterState cat k s) = toggleMoreInfoCheckbox s"
  "listeners (setterState cat k s) = listeners s"
  "closeDialogButton (setterState cat k s) = closeDialogButton s"
  "abortController (setterState cat k s) = abortController s"
  "controllersCreated (setterState cat k s) = controllersCreated s"
  by (simp_all add: setterState_def)

lemma dispatch_fields [simp]:
  "selectedNoteSequenceThemeKey (dispatchNoteSequenceSelectedEvent s) =
     selectedNoteSequenceThemeKey s"
  "selectedNoteSequenceTheme (dispatchNoteSequenceSelectedEvent s) = selectedNoteSequenceTheme s"
  "attribute (dispatchNoteSequenceSelectedEvent s) = attribute s"
  "noteSequenceSelectorButton (dispatchNoteSequenceSelectedEvent s) = noteSequenceSelectorButton s"
  "noteSequenceSelectorDialog (dispatchNoteSequenceSelectedEvent s) = noteSequenceSelectorDialog s"
  "noteSequencesContainer (dispatchNoteSequenceSelectedEvent s) = noteSequencesContainer s"
  "toggleMoreInfoCheckbox (dispatchNoteSequenceSelectedEvent s) = toggleMoreInfoCheckbox s"
  "listeners (dispatchNoteSequenceSelectedEvent s) = listeners s"
  by (simp_all add: dispatchNoteSequenceSelectedEvent_def)

lemma setter_in_sync:
  assumes "noteSequenceSelectorButton s \<noteq> None" "reflected k = attribute s"
  shows "set_selectedNoteSequenceThemeKey cat k s = Inr (setterState cat k s)"
  using assms by (simp add: setter_unfold update_in_sync)

lemma reflected_keyOfAttribute [simp]: "reflected (keyOfAttribute (reflected k)) = reflected k"
  by (cases k) auto

lemma callback_changed:
  assumes "noteSequenceSelectorButton s \<noteq> None" "oldValue \<noteq> reflected k"
    "attribute s = reflected k"
  shows "attributeChangedCallback cat observedAttribute oldValue (reflected k) s =
     Inr (dispatchNoteSequenceSelectedEvent (setterState cat (keyOfAttribute (reflected k)) s))"
  using assms by (simp add: attributeChangedCallback.simps setter_in_sync)

lemma update_out_of_sync:
  assumes "noteSequenceSelectorButton s \<noteq> None"
    "reflected (selectedNoteSequenceThemeKey s) \<noteq> attribute s"
  shows "updateSelectedNoteSequenceAttribute cat s =
     Inr (dispatchNoteSequenceSelectedEvent
       (setterState cat (keyOfAttribute (reflected (selectedNoteSequenceThemeKey s)))
          (s\<lparr>attribute := reflected (selectedNoteSequenceThemeKey s)\<rparr>)))"
proof (cases "reflected (selectedNoteSequenceThemeKey s)")
  case None
  with assms obtain old where old: "attribute s = Some old" by (cases "attribute s") auto
  have "attributeChangedCallback cat observedAttribute (Some old)
          (reflected (selectedNoteSequenceThemeKey s)) (s\<lparr>attribute := None\<rparr>) =
        Inr (dispatchNoteSequenceSelectedEvent
          (setterState cat (keyOfAttribute (reflected (selectedNoteSequenceThemeKey s)))
             (s\<lparr>attribute := None\<rparr>)))"
    by (rule callback_changed) (use assms None in simp_all)
  with None old show ?thesis
    by (simp add: updateSelectedNoteSequenceAttribute.simps removeAttribute.simps)
next
  case (Some v)
  have "attributeChangedCallback cat observedAttribute (attribute s)
          (reflected (selectedNoteSequenceThemeKey s)) (s\<lparr>attribute := Some v\<rparr>) =
        Inr (dispatchNoteSequenceSelectedEvent
          (setterState cat (keyOfAttribute (reflected (selectedNoteSequenceThemeKey s)))
             (s\<lparr>attribute := Some v\<rparr>)))"
    by (rule callback_changed) (use assms Some in auto)
  with Some show ?thesis
    by (simp add: updateSelectedNoteSequenceAttribute.simps setAttribute.simps)
qed

lemma setter_out_of_sync:
  assumes "noteSequenceSelectorButton s \<noteq> None" "reflected k \<noteq> attribute s"
  shows "set_selectedNoteSequenceThemeKey cat k s =
    Inr (dispatchNoteSequenceSelectedEvent
      (setterState cat (keyOfAttribute (reflected k))
         ((setterState cat k s)\<lparr>attribute := reflected k\<rparr>)))"
  using assms by (simp add: setter_unfold update_out_of_sync)

lemma notifications_append: "notifications (xs @ ys) = notifications xs @ notifications ys"
  by (induction xs rule: notifications.induct) simp_all

lemma setter_result:
  assumes "noteSequenceSelectorButton s \<noteq> None"
  shows "\<exists>s'. set_selectedNoteSequenceThemeKey cat k s = Inr s' \<and>
     selectedNoteSequenceThemeKey s' =
       (if reflected k = attribute s then k else keyOfAttribute (reflected k)) \<and>
     selectedNoteSequenceTheme s' = resolvedTheme cat (selectedNoteSequenceThemeKey s') \<and>
     attribute s' = reflected k \<and>
     noteSequenceSelectorButton s' = Some (buttonText (selectedNoteSequenceTheme s')) \<and>
     noteSequenceSelectorDialog s' = noteSequenceSelectorDialog s \<and>
     noteSequencesContainer s' = noteSequencesContainer s \<and>
     toggleMoreInfoCheckbox s' = toggleMoreInfoCheckbox s \<and>
     listeners s' = listeners s \<and>
     notifications (log s') = notifications (log s) @
       (if reflected k \<noteq> attribute s \<and> reflected k \<noteq> None \<and>
           resolvedTheme cat (keyOfAttribute (reflected k)) \<noteq> TNull
        then [(keyOfAttribute (reflected k), resolvedTheme cat (keyOfAttribute (reflected k)))]
        else [])"
proof (cases "reflected k = attribute s")
  case True
  with assms have "set_selectedNoteSequenceThemeKey cat k s = Inr (setterState cat k s)"
    by (simp add: setter_in_sync)
  with True show ?thesis by (simp add: notifications_append)
next
  case False
  with assms have "set_selectedNoteSequenceThemeKey cat k s =
    Inr (dispatchNoteSequenceSelectedEvent
      (setterState cat (keyOfAttribute (reflected k))
         ((setterState cat k s)\<lparr>attribute := reflected k\<rparr>)))"
    by (simp add: setter_out_of_sync)
  moreover have "keyOfAttribute (reflected k) \<noteq> KNull \<longleftrightarrow> reflected k \<noteq> None"
    by (cases "reflected k") simp_all
  ultimately show ?thesis using False
    by (simp add: notifications_append dispatchNoteSequenceSelectedEvent_def)
qed

lemma ionian_selected:
  "set_selectedNoteSequenceThemeKey demoCatalog (KStr ''ionian'') constructor = Inr ionianSelected"
  by (simp add: selection_simps updateNoteSequenceSelectorButtonText_def constructor_def
      ionianSelected_def demoCatalog_def lookupTheme_def buttonText_def observedAttribute_def
      dispatchNoteSequenceSelectedEvent_def ionian_def)

section \<open>Selecting and clearing through the property\<close>

text \<open>
  C1: for a key of the flattened catalog, assigning it to the selection property leaves the
  key stored, the catalog's record for it as the stored theme, and the key as the value of the
  observed attribute. The trigger button exists (the constructor finds it) and the catalog has
  no empty key.
\<close>

theorem select_catalog_key:
  assumes "noteSequenceSelectorButton s \<noteq> None"
    and "[] \<notin> fst ` set (allNoteSequenceThemes cat)"
    and "map_of (allNoteSequenceThemes cat) k = Some t"
  shows "\<exists>s'. set_selectedNoteSequenceThemeKey cat (KStr k) s = Inr s' \<and>
     selectedNoteSequenceThemeKey s' = KStr k \<and>
     selectedNoteSequenceTheme s' = TTheme t \<and>
     attribute s' = Some k"
proof -
  from assms(3) have "k \<in> fst ` set (allNoteSequenceThemes cat)"
    by (metis domI dom_map_of_conv_image_fst)
  with assms(2) have k: "k \<noteq> []" by blast
  then have r: "reflected (KStr k) = Some k" by simp
  from k assms(3) have th: "resolvedTheme cat (KStr k) = TTheme t"
    by (simp add: resolvedTheme_def lookupTheme_def)
  from setter_result [OF assms(1), of cat "KStr k"] r th show ?thesis by auto
qed

theorem select_catalog_key_witness:
  "noteSequenceSelectorButton constructor \<noteq> None \<and>
   [] \<notin> fst ` set (allNoteSequenceThemes demoCatalog) \<and>
   map_of (allNoteSequenceThemes demoCatalog) ''dorian'' = Some dorian \<and>
   (\<exists>s'. set_selectedNoteSequenceThemeKey demoCatalog (KStr ''dorian'') constructor = Inr s' \<and>
     selectedNoteSequenceThemeKey s' = KStr ''dorian'' \<and>
     selectedNoteSequenceTheme s' = TTheme dorian \<and>
     attribute s' = Some ''dorian'')"
proof -
  have a: "noteSequenceSelectorButton constructor \<noteq> None" by (simp add: constructor_def)
  have b: "[] \<notin> fst ` set (allNoteSequenceThemes demoCatalog)" by (simp add: demoCatalog_def)
  have c: "map_of (allNoteSequenceThemes demoCatalog) ''dorian'' = Some dorian"
    by (simp add: demoCatalog_def)
  from select_catalog_key [OF a b c] a b c show ?thesis by blast
qed

text \<open>
  C4: assigning null to the selection property clears the stored key and the stored theme
  and leaves the host without the observed attribute, whatever the selection was before.
\<close>

theorem clear_selection:
  assumes "noteSequenceSelectorButton s \<noteq> None"
  shows "\<exists>s'. set_selectedNoteSequenceThemeKey cat KNull s = Inr s' \<and>
     selectedNoteSequenceThemeKey s' = KNull \<and>
     selectedNoteSequenceTheme s' = TNull \<and>
     attribute s' = None"
  using setter_result [OF assms, of cat KNull] by (auto simp: resolvedTheme_def)

theorem clear_selection_witness:
  "noteSequenceSelectorButton ionianSelected \<noteq> None \<and>
   (\<exists>s'. set_selectedNoteSequenceThemeKey demoCatalog KNull ionianSelected = Inr s' \<and>
     selectedNoteSequenceThemeKey s' = KNull \<and>
     selectedNoteSequenceTheme s' = TNull \<and>
     attribute s' = None)"
proof -
  have a: "noteSequenceSelectorButton ionianSelected \<noteq> None"
    by (simp add: ionianSelected_def)
  from clear_selection [OF a] a show ?thesis by blast
qed

section \<open>No feedback between observing and reflecting the attribute\<close>

text \<open>
  C3: writing to the observed attribute the value it already holds changes nothing, in
  either revision of the component: the callback returns at its comparison of old and new
  value, so the state, and with it the log of setter runs, notifications and list
  constructions, is the one before the write.
\<close>

theorem reapplied_attribute_is_noop:
  assumes "attribute s = Some v"
  shows "setAttribute cat v s = Inr s \<and> setAttribute0 cat v s = Inr s \<and>
     attributeChangedCallback cat name (Some v) (Some v) s = Inr s \<and>
     attributeChangedCallback0 cat name (Some v) (Some v) s = Inr s"
proof -
  from assms have "s\<lparr>attribute := Some v\<rparr> = s" by (cases s) simp
  then show ?thesis
    by (simp add: setAttribute.simps attributeChangedCallback.simps setAttribute0.simps
        attributeChangedCallback0.simps assms)
qed

theorem reapplied_attribute_is_noop_witness:
  "attribute ionianSelected = Some ''ionian'' \<and>
   setAttribute demoCatalog ''ionian'' ionianSelected = Inr ionianSelected \<and>
   setAttribute0 demoCatalog ''ionian'' ionianSelected = Inr ionianSelected \<and>
   attributeChangedCallback demoCatalog observedAttribute (Some ''ionian'') (Some ''ionian'')
     ionianSelected = Inr ionianSelected \<and>
   attributeChangedCallback0 demoCatalog observedAttribute (Some ''ionian'') (Some ''ionian'')
     ionianSelected = Inr ionianSelected"
proof -
  have a: "attribute ionianSelected = Some ''ionian''" by (simp add: ionianSelected_def)
  from reapplied_attribute_is_noop [OF a] a show ?thesis by blast
qed

section \<open>Random selection\<close>

text \<open>
  C7: on a non-empty flattened catalog the random-selection method picks one of the
  catalog's keys and hands it to the property setter, so that it behaves as an ordinary
  assignment of that key. \<open>Math.random\<close> is a real number of the interval from 0 (included) to 1
  (excluded).
\<close>

theorem random_key_in_catalog:
  assumes "0 \<le> random" and "random < 1" and "allNoteSequenceThemes cat \<noteq> []"
  shows "\<exists>k \<in> fst ` set (allNoteSequenceThemes cat).
     setRandomNoteSequence cat random s = set_selectedNoteSequenceThemeKey cat (KStr k) s"
proof -
  let ?keys = "map fst (allNoteSequenceThemes cat)"
  let ?i = "nat \<lfloor>random * real (length ?keys)\<rfloor>"
  from assms(3) have pos: "0 < real (length ?keys)" by simp
  with assms(2) have "random * real (length ?keys) < real (length ?keys)" by simp
  then have "\<lfloor>random * real (length ?keys)\<rfloor> < int (length ?keys)"
    by (simp add: floor_less_iff)
  then have lt: "?i < length ?keys" using pos by linarith
  then have "?keys ! ?i \<in> set ?keys" by (rule nth_mem)
  then have mem: "?keys ! ?i \<in> fst ` set (allNoteSequenceThemes cat)" by simp
  from lt have "setRandomNoteSequence cat random s =
      set_selectedNoteSequenceThemeKey cat (KStr (?keys ! ?i)) s"
    by (simp add: setRandomNoteSequence_def Let_def)
  with mem show ?thesis by blast
qed

theorem random_key_in_catalog_witness:
  "(0::real) \<le> 1 / 2 \<and> (1::real) / 2 < 1 \<and> allNoteSequenceThemes demoCatalog \<noteq> [] \<and>
   (\<exists>k \<in> fst ` set (allNoteSequenceThemes demoCatalog).
     setRandomNoteSequence demoCatalog (1 / 2) constructor =
       set_selectedNoteSequenceThemeKey demoCatalog (KStr k) constructor)"
proof -
  have a: "(0::real) \<le> 1 / 2" by simp
  have b: "(1::real) / 2 < 1" by simp
  have c: "allNoteSequenceThemes demoCatalog \<noteq> []" by (simp add: demoCatalog_def)
  from random_key_in_catalog [OF a b c] a b c show ?thesis by blast
qed

section \<open>The visibility toggle\<close>

lemma toggleHidden_twice: "toggleHidden h (toggleHidden h' g) = toggleHidden h g"
  by (cases g) (simp add: comp_def)

lemma moreInfoDivs_toggled: "moreInfoDivs (toggleHidden h g) = map (\<lambda>_. h) (moreInfoDivs g)"
  by (cases g) (simp add: comp_def)

lemma moreInfoElements_toggled:
  "noteSequencesContainer s = Some gs \<Longrightarrow>
   moreInfoElements (s\<lparr>noteSequencesContainer := Some (map (toggleHidden h) gs)\<rparr>) =
     map (\<lambda>_. h) (moreInfoElements s)"
  by (simp add: moreInfoElements_def moreInfoDivs_toggled map_concat comp_def)

lemma container_same:
  "noteSequencesContainer s = c \<Longrightarrow> s\<lparr>noteSequencesContainer := c\<rparr> = s"
  by (cases s) simp

lemma change_bound:
  assumes "toggleMoreInfoCheckbox s \<noteq> None" "ToggleMoreInfo \<in> snd ` set (listeners s)"
  shows "toggleMoreInfoCheckboxChange b s =
     Inr (case noteSequencesContainer s of
            None \<Rightarrow> s\<lparr>toggleMoreInfoCheckbox := Some b\<rparr>
          | Some gs \<Rightarrow>
              s\<lparr>toggleMoreInfoCheckbox := Some b,
                noteSequencesContainer := Some (map (toggleHidden (\<not> b)) gs)\<rparr>)"
proof (cases "noteSequencesContainer s")
  case None
  with assms show ?thesis
    by (cases "toggleMoreInfoCheckbox s")
       (simp_all add: toggleMoreInfoCheckboxChange_def updateMoreInfoVisibility_def Let_def)
next
  case (Some gs)
  show ?thesis
  proof (cases "gs = []")
    case True
    with Some have "(s\<lparr>toggleMoreInfoCheckbox := Some b\<rparr>)\<lparr>noteSequencesContainer := Some []\<rparr> =
       s\<lparr>toggleMoreInfoCheckbox := Some b\<rparr>"
      by (intro container_same) simp
    with assms Some True show ?thesis
      by (cases "toggleMoreInfoCheckbox s")
         (simp_all add: toggleMoreInfoCheckboxChange_def updateMoreInfoVisibility_def Let_def)
  next
    case False
    with assms Some show ?thesis
      by (cases "toggleMoreInfoCheckbox s")
         (simp_all add: toggleMoreInfoCheckboxChange_def updateMoreInfoVisibility_def Let_def)
  qed
qed


lemma afterChange_fields:
  "toggleMoreInfoCheckbox (afterChange b s) = Some b"
  "listeners (afterChange b s) = listeners s"
  "moreInfoElements (afterChange b s) = map (\<lambda>_. \<not> b) (moreInfoElements s)"
proof -
  show "toggleMoreInfoCheckbox (afterChange b s) = Some b"
    by (cases "noteSequencesContainer s") (simp_all add: afterChange_def)
  show "listeners (afterChange b s) = listeners s"
    by (cases "noteSequencesContainer s") (simp_all add: afterChange_def)
  show "moreInfoElements (afterChange b s) = map (\<lambda>_. \<not> b) (moreInfoElements s)"
  proof (cases "noteSequencesContainer s")
    case None
    then show ?thesis by (simp add: afterChange_def moreInfoElements_def)
  next
    case (Some gs)
    then have "moreInfoElements
        ((s\<lparr>toggleMoreInfoCheckbox := Some b\<rparr>)
           \<lparr>noteSequencesContainer := Some (map (toggleHidden (\<not> b)) gs)\<rparr>) =
       map (\<lambda>_. \<not> b) (moreInfoElements (s\<lparr>toggleMoreInfoCheckbox := Some b\<rparr>))"
      by (intro moreInfoElements_toggled) simp
    with Some show ?thesis by (simp add: afterChange_def moreInfoElements_def)
  qed
qed

lemma afterChange_twice: "afterChange b (afterChange b' s) = afterChange b s"
  by (cases "noteSequencesContainer s") (simp_all add: afterChange_def toggleHidden_twice comp_def)

text \<open>
  C8: with the change listener bound, a change of the checkbox to \<open>b\<close> gives every
  ``more info'' panel the same classification, hidden exactly when \<open>b\<close> is false; changing it to
  true, to false and to true again ends in the state reached after the first change.
\<close>

theorem visibility_round_trip:
  assumes "toggleMoreInfoCheckbox s \<noteq> None"
    and "ToggleMoreInfo \<in> snd ` set (listeners s)"
  shows "\<exists>s1 s2 s3.
     toggleMoreInfoCheckboxChange True s = Inr s1 \<and>
     toggleMoreInfoCheckboxChange False s1 = Inr s2 \<and>
     toggleMoreInfoCheckboxChange True s2 = Inr s3 \<and>
     moreInfoElements s1 = map (\<lambda>_. False) (moreInfoElements s) \<and>
     moreInfoElements s2 = map (\<lambda>_. True) (moreInfoElements s) \<and>
     moreInfoElements s3 = moreInfoElements s1 \<and> s3 = s1"
proof -
  have step: "toggleMoreInfoCheckboxChange b s' = Inr (afterChange b s')"
    if "toggleMoreInfoCheckbox s' \<noteq> None" "ToggleMoreInfo \<in> snd ` set (listeners s')"
    for b s'
    using change_bound [OF that] by (simp add: afterChange_def)
  let ?s1 = "afterChange True s"
  let ?s2 = "afterChange False ?s1"
  let ?s3 = "afterChange True ?s2"
  have 1: "toggleMoreInfoCheckboxChange True s = Inr ?s1"
    using assms by (rule step)
  have 2: "toggleMoreInfoCheckboxChange False ?s1 = Inr ?s2"
    by (rule step) (simp_all add: afterChange_fields assms)
  have 3: "toggleMoreInfoCheckboxChange True ?s2 = Inr ?s3"
    by (rule step) (simp_all add: afterChange_fields assms)
  have 4: "?s3 = ?s1" by (simp add: afterChange_twice)
  have 5: "moreInfoElements ?s1 = map (\<lambda>_. False) (moreInfoElements s)"
    by (simp add: afterChange_fields)
  have 6: "moreInfoElements ?s2 = map (\<lambda>_. True) (moreInfoElements s)"
    by (simp add: afterChange_fields comp_def)
  from 1 2 3 4 5 6 show ?thesis by metis
qed

lemma populate_demo:
  "noteSequencesContainer s \<noteq> None \<Longrightarrow>
   populateNoteSequences demoCatalog s =
     Inr (s\<lparr>noteSequencesContainer := Some demoList, log := log s @ [ListBuilt]\<rparr>)"
  by (auto simp: populateNoteSequences_def currentGroupEntries_def demoCatalog_def demoList_def)

lemma connected_demo: "connectedCallback demoCatalog constructor = Inr connectedDemo"
proof -
  let ?s2 = "constructor
       \<lparr>abortController := Some 0, controllersCreated := Suc 0,
        listeners := [(0, ShowModal), (0, CloseDialog), (0, ToggleMoreInfo)],
        noteSequencesContainer := Some demoList, log := [ListBuilt]\<rparr>"
  have sync: "reflected (selectedNoteSequenceThemeKey ?s2) = attribute ?s2"
    by (simp add: constructor_def)
  have eq: "?s2 = connectedDemo"
    by (simp add: connectedDemo_def constructor_def)
  have lbl: "updateNoteSequenceSelectorButtonText ?s2 = Inr ?s2"
    by (simp add: updateNoteSequenceSelectorButtonText_def constructor_def buttonText_def)
  have "connectedCallback demoCatalog constructor =
     (case populateNoteSequences demoCatalog
             (constructor\<lparr>abortController := Some 0, controllersCreated := Suc 0,
                listeners := [(0, ShowModal), (0, CloseDialog), (0, ToggleMoreInfo)]\<rparr>) of
        Inl e \<Rightarrow> Inl e
      | Inr s2 \<Rightarrow>
          (case updateNoteSequenceSelectorButtonText s2 of
             Inl e \<Rightarrow> Inl e
           | Inr s3 \<Rightarrow> updateSelectedNoteSequenceAttribute demoCatalog s3))"
    by (simp add: connectedCallback_def Let_def constructor_def del: not_None_eq)
  also have "populateNoteSequences demoCatalog
             (constructor\<lparr>abortController := Some 0, controllersCreated := Suc 0,
                listeners := [(0, ShowModal), (0, CloseDialog), (0, ToggleMoreInfo)]\<rparr>) = Inr ?s2"
    by (simp add: populate_demo constructor_def)
  finally show ?thesis
    using lbl sync eq by (simp add: update_in_sync)
qed
theorem visibility_round_trip_witness:
  "toggleMoreInfoCheckbox connectedDemo \<noteq> None \<and>
   ToggleMoreInfo \<in> snd ` set (listeners connectedDemo) \<and>
   moreInfoElements connectedDemo = [True, True, True] \<and>
   (\<exists>s1 s2 s3.
     toggleMoreInfoCheckboxChange True connectedDemo = Inr s1 \<and>
     toggleMoreInfoCheckboxChange False s1 = Inr s2 \<and>
     toggleMoreInfoCheckboxChange True s2 = Inr s3 \<and>
     moreInfoElements s1 = [False, False, False] \<and>
     moreInfoElements s2 = [True, True, True] \<and>
     moreInfoElements s3 = moreInfoElements s1 \<and> s3 = s1)"
proof -
  have a: "toggleMoreInfoCheckbox connectedDemo \<noteq> None"
    by (simp add: connectedDemo_def constructor_def)
  have b: "ToggleMoreInfo \<in> snd ` set (listeners connectedDemo)"
    by (simp add: connectedDemo_def)
  have c: "moreInfoElements connectedDemo = [True, True, True]"
    by (simp add: connectedDemo_def moreInfoElements_def demoList_def)
  from visibility_round_trip [OF a b] a b c show ?thesis by simp
qed

section \<open>Attaching with a missing element\<close>

text \<open>
  C9: when the trigger button, the dialog, the list container or the checkbox was not
  found, attaching the element returns normally, writes one error to the console, and leaves
  the listeners, the list and the selection as they were; only a new abort controller is
  stored.
\<close>

theorem attach_without_structure:
  assumes "noteSequenceSelectorButton s = None \<or> noteSequenceSelectorDialog s = None \<or>
     noteSequencesContainer s = None \<or> toggleMoreInfoCheckbox s = None"
  shows "\<exists>s'. connectedCallback cat s = Inr s' \<and>
     log s' = log s @ [ConsoleError] \<and>
     listeners s' = listeners s \<and>
     noteSequencesContainer s' = noteSequencesContainer s \<and>
     noteSequenceSelectorButton s' = noteSequenceSelectorButton s \<and>
     noteSequenceSelectorDialog s' = noteSequenceSelectorDialog s \<and>
     toggleMoreInfoCheckbox s' = toggleMoreInfoCheckbox s \<and>
     selectedNoteSequenceThemeKey s' = selectedNoteSequenceThemeKey s \<and>
     selectedNoteSequenceTheme s' = selectedNoteSequenceTheme s \<and>
     attribute s' = attribute s"
proof -
  from assms have "connectedCallback cat s =
      Inr (s\<lparr>abortController := Some (controllersCreated s),
             controllersCreated := Suc (controllersCreated s),
             log := log s @ [ConsoleError]\<rparr>)"
    by (auto simp: connectedCallback_def Let_def)
  then show ?thesis by simp
qed

theorem attach_without_structure_witness:
  "noteSequenceSelectorDialog (constructor\<lparr>noteSequenceSelectorDialog := None\<rparr>) = None \<and>
   (\<exists>s'. connectedCallback demoCatalog (constructor\<lparr>noteSequenceSelectorDialog := None\<rparr>) = Inr s' \<and>
     log s' = [ConsoleError] \<and> listeners s' = [] \<and> noteSequencesContainer s' = Some [] \<and>
     selectedNoteSequenceThemeKey s' = KNull \<and> attribute s' = None)"
proof -
  have a: "noteSequenceSelectorDialog (constructor\<lparr>noteSequenceSelectorDialog := None\<rparr>) = None"
    by simp
  then have "noteSequenceSelectorButton (constructor\<lparr>noteSequenceSelectorDialog := None\<rparr>) = None \<or>
     noteSequenceSelectorDialog (constructor\<lparr>noteSequenceSelectorDialog := None\<rparr>) = None \<or>
     noteSequencesContainer (constructor\<lparr>noteSequenceSelectorDialog := None\<rparr>) = None \<or>
     toggleMoreInfoCheckbox (constructor\<lparr>noteSequenceSelectorDialog := None\<rparr>) = None"
    by simp
  from attach_without_structure [OF this, of demoCatalog] a show ?thesis
    by (auto simp: constructor_def)
qed

section \<open>Attribute writes by the host\<close>

lemmas demo_defs =
  step_def updateNoteSequenceSelectorButtonText_def constructor_def demoCatalog_def
  lookupTheme_def buttonText_def observedAttribute_def dispatchNoteSequenceSelectedEvent_def
  ionian_def dorian_def objectPrototypeNames_def

lemma hostSetAttribute_result:
  assumes "noteSequenceSelectorButton s \<noteq> None" "attribute s \<noteq> Some v"
  shows "\<exists>s'. setAttribute cat v s = Inr s' \<and>
     selectedNoteSequenceThemeKey s' = keyOfAttribute (reflected (KStr v)) \<and>
     selectedNoteSequenceTheme s' = resolvedTheme cat (selectedNoteSequenceThemeKey s') \<and>
     attribute s' = reflected (KStr v) \<and>
     noteSequenceSelectorButton s' = Some (buttonText (selectedNoteSequenceTheme s')) \<and>
     noteSequenceSelectorDialog s' = noteSequenceSelectorDialog s \<and>
     noteSequencesContainer s' = noteSequencesContainer s \<and>
     toggleMoreInfoCheckbox s' = toggleMoreInfoCheckbox s \<and>
     listeners s' = listeners s \<and>
     notifications (log s') = notifications (log s) @
       (if v \<noteq> [] \<and> resolvedTheme cat (KStr v) \<noteq> TNull
        then [(KStr v, resolvedTheme cat (KStr v))] else [])"
proof -
  let ?s1 = "s\<lparr>attribute := Some v\<rparr>"
  from assms(1) have b: "noteSequenceSelectorButton ?s1 \<noteq> None" by simp
  from setter_result [OF b, of cat "KStr v"] obtain s2 where
    s2: "set_selectedNoteSequenceThemeKey cat (KStr v) ?s1 = Inr s2"
      "selectedNoteSequenceThemeKey s2 =
        (if reflected (KStr v) = attribute ?s1 then KStr v else keyOfAttribute (reflected (KStr v)))"
      "selectedNoteSequenceTheme s2 = resolvedTheme cat (selectedNoteSequenceThemeKey s2)"
      "attribute s2 = reflected (KStr v)"
      "noteSequenceSelectorButton s2 = Some (buttonText (selectedNoteSequenceTheme s2))"
      "noteSequenceSelectorDialog s2 = noteSequenceSelectorDialog ?s1"
      "noteSequencesContainer s2 = noteSequencesContainer ?s1"
      "toggleMoreInfoCheckbox s2 = toggleMoreInfoCheckbox ?s1"
      "listeners s2 = listeners ?s1"
      "notifications (log s2) = notifications (log ?s1) @
       (if reflected (KStr v) \<noteq> attribute ?s1 \<and> reflected (KStr v) \<noteq> None \<and>
           resolvedTheme cat (keyOfAttribute (reflected (KStr v))) \<noteq> TNull
        then [(keyOfAttribute (reflected (KStr v)),
               resolvedTheme cat (keyOfAttribute (reflected (KStr v))))]
        else [])"
    by blast
  from assms(2) s2(1) have run: "setAttribute cat v s = Inr (dispatchNoteSequenceSelectedEvent s2)"
    by (simp add: setAttribute.simps attributeChangedCallback.simps)
  show ?thesis
  proof (cases "v = []")
    case True
    with s2 show ?thesis
      unfolding run
      by (simp add: dispatchNoteSequenceSelectedEvent_def notifications_append resolvedTheme_def)
  next
    case False
    with s2 show ?thesis
      unfolding run
      by (simp add: dispatchNoteSequenceSelectedEvent_def notifications_append)
  qed
qed

lemma hostRemoveAttribute_result:
  assumes "noteSequenceSelectorButton s \<noteq> None" "attribute s \<noteq> None"
  shows "\<exists>s'. removeAttribute cat s = Inr s' \<and>
     selectedNoteSequenceThemeKey s' = KNull \<and>
     selectedNoteSequenceTheme s' = TNull \<and>
     attribute s' = None \<and>
     noteSequenceSelectorButton s' = Some (buttonText TNull) \<and>
     noteSequenceSelectorDialog s' = noteSequenceSelectorDialog s \<and>
     noteSequencesContainer s' = noteSequencesContainer s \<and>
     toggleMoreInfoCheckbox s' = toggleMoreInfoCheckbox s \<and>
     listeners s' = listeners s \<and>
     notifications (log s') = notifications (log s)"
proof -
  from assms(2) obtain old where old: "attribute s = Some old" by auto
  let ?s1 = "s\<lparr>attribute := None\<rparr>"
  from assms(1) have "set_selectedNoteSequenceThemeKey cat KNull ?s1 = Inr (setterState cat KNull ?s1)"
    by (intro setter_in_sync) simp_all
  with old have "removeAttribute cat s =
      Inr (dispatchNoteSequenceSelectedEvent (setterState cat KNull ?s1))"
    by (simp add: removeAttribute.simps attributeChangedCallback.simps)
  then show ?thesis
    by (simp add: dispatchNoteSequenceSelectedEvent_def notifications_append resolvedTheme_def)
qed

section \<open>Keys outside the catalog and the empty key\<close>




text \<open>
  C10, as stated, fails whenever the attribute is present when the empty string arrives,
  which is always the case when it arrives through the attribute: the stored key ends as
  \<open>null\<close>, not as the empty string.
\<close>

theorem empty_key_counterexample:
  "map_sum id selectedNoteSequenceThemeKey
     (run demoCatalog [HostSetAttribute []] constructor) = Inr KNull \<and>
   map_sum id selectedNoteSequenceThemeKey
     (run demoCatalog [HostSetAttribute ''dorian'', SetProperty (KStr [])] constructor) =
     Inr KNull"
  by (simp add: demo_defs selection_simps)

text \<open>
  C10, amended: assigning the empty string to the property clears the theme, resets the
  trigger to the placeholder and leaves no attribute; the stored key is the empty string when
  no attribute was present before the assignment and \<open>null\<close> when one was. Writing the empty
  string to the attribute has the same effect and always leaves the key \<open>null\<close>.
\<close>

theorem empty_key_clears:
  assumes "noteSequenceSelectorButton s \<noteq> None"
  shows "(\<exists>s'. set_selectedNoteSequenceThemeKey cat (KStr []) s = Inr s' \<and>
       selectedNoteSequenceTheme s' = TNull \<and>
       noteSequenceSelectorButton s' = Some ''Select Sequence'' \<and>
       attribute s' = None \<and>
       selectedNoteSequenceThemeKey s' = (if attribute s = None then KStr [] else KNull)) \<and>
     (attribute s \<noteq> Some [] \<longrightarrow>
       (\<exists>s'. setAttribute cat [] s = Inr s' \<and>
         selectedNoteSequenceTheme s' = TNull \<and>
         noteSequenceSelectorButton s' = Some ''Select Sequence'' \<and>
         attribute s' = None \<and>
         selectedNoteSequenceThemeKey s' = KNull))"
proof
  from setter_result [OF assms, of cat "KStr []"]
  show "\<exists>s'. set_selectedNoteSequenceThemeKey cat (KStr []) s = Inr s' \<and>
       selectedNoteSequenceTheme s' = TNull \<and>
       noteSequenceSelectorButton s' = Some ''Select Sequence'' \<and>
       attribute s' = None \<and>
       selectedNoteSequenceThemeKey s' = (if attribute s = None then KStr [] else KNull)"
    by (auto simp: resolvedTheme_def buttonText_def)
next
  show "attribute s \<noteq> Some [] \<longrightarrow>
       (\<exists>s'. setAttribute cat [] s = Inr s' \<and>
         selectedNoteSequenceTheme s' = TNull \<and>
         noteSequenceSelectorButton s' = Some ''Select Sequence'' \<and>
         attribute s' = None \<and>
         selectedNoteSequenceThemeKey s' = KNull)"
  proof
    assume "attribute s \<noteq> Some []"
    from hostSetAttribute_result [OF assms this, of cat]
    show "\<exists>s'. setAttribute cat [] s = Inr s' \<and>
         selectedNoteSequenceTheme s' = TNull \<and>
         noteSequenceSelectorButton s' = Some ''Select Sequence'' \<and>
         attribute s' = None \<and>
         selectedNoteSequenceThemeKey s' = KNull"
      by (auto simp: resolvedTheme_def buttonText_def)
  qed
qed

theorem empty_key_clears_witness:
  "noteSequenceSelectorButton ionianSelected \<noteq> None \<and>
   attribute ionianSelected \<noteq> Some [] \<and>
   (\<exists>s'. set_selectedNoteSequenceThemeKey demoCatalog (KStr []) ionianSelected = Inr s' \<and>
       selectedNoteSequenceTheme s' = TNull \<and>
       noteSequenceSelectorButton s' = Some ''Select Sequence'' \<and>
       attribute s' = None \<and>
       selectedNoteSequenceThemeKey s' = KNull) \<and>
   (\<exists>s'. setAttribute demoCatalog [] ionianSelected = Inr s' \<and>
       selectedNoteSequenceTheme s' = TNull \<and>
       noteSequenceSelectorButton s' = Some ''Select Sequence'' \<and>
       attribute s' = None \<and>
       selectedNoteSequenceThemeKey s' = KNull)"
proof -
  have a: "noteSequenceSelectorButton ionianSelected \<noteq> None"
    by (simp add: ionianSelected_def)
  have b: "attribute ionianSelected \<noteq> Some []" by (simp add: ionianSelected_def)
  have c: "attribute ionianSelected \<noteq> None" by (simp add: ionianSelected_def)
  from empty_key_clears [OF a, of demoCatalog] a b c show ?thesis by simp
qed

section \<open>Runs from a freshly constructed element\<close>

lemma update_result:
  assumes "noteSequenceSelectorButton s \<noteq> None"
  shows "\<exists>s'. updateSelectedNoteSequenceAttribute cat s = Inr s' \<and>
     selectedNoteSequenceThemeKey s' =
       (if reflected (selectedNoteSequenceThemeKey s) = attribute s
        then selectedNoteSequenceThemeKey s
        else keyOfAttribute (reflected (selectedNoteSequenceThemeKey s))) \<and>
     selectedNoteSequenceTheme s' =
       (if reflected (selectedNoteSequenceThemeKey s) = attribute s
        then selectedNoteSequenceTheme s
        else resolvedTheme cat (keyOfAttribute (reflected (selectedNoteSequenceThemeKey s)))) \<and>
     attribute s' = reflected (selectedNoteSequenceThemeKey s) \<and>
     noteSequenceSelectorButton s' \<noteq> None \<and>
     noteSequenceSelectorDialog s' = noteSequenceSelectorDialog s \<and>
     noteSequencesContainer s' = noteSequencesContainer s \<and>
     toggleMoreInfoCheckbox s' = toggleMoreInfoCheckbox s \<and>
     listeners s' = listeners s \<and>
     notifications (log s') = notifications (log s) @
       (if reflected (selectedNoteSequenceThemeKey s) \<noteq> attribute s \<and>
           reflected (selectedNoteSequenceThemeKey s) \<noteq> None \<and>
           resolvedTheme cat (keyOfAttribute (reflected (selectedNoteSequenceThemeKey s))) \<noteq> TNull
        then [(keyOfAttribute (reflected (selectedNoteSequenceThemeKey s)),
               resolvedTheme cat (keyOfAttribute (reflected (selectedNoteSequenceThemeKey s))))]
        else [])"
proof (cases "reflected (selectedNoteSequenceThemeKey s) = attribute s")
  case True
  then have "updateSelectedNoteSequenceAttribute cat s = Inr s" by (rule update_in_sync)
  with True assms show ?thesis by simp
next
  case False
  have "keyOfAttribute (reflected (selectedNoteSequenceThemeKey s)) \<noteq> KNull \<longleftrightarrow>
      reflected (selectedNoteSequenceThemeKey s) \<noteq> None"
    by (cases "reflected (selectedNoteSequenceThemeKey s)") simp_all
  with False update_out_of_sync [OF assms False, of cat] show ?thesis
    by (simp add: notifications_append dispatchNoteSequenceSelectedEvent_def)
qed

lemma lookupTheme_not_null [simp]: "lookupTheme cat k \<noteq> TNull"
  by (simp add: lookupTheme_def split: option.split)

lemma click_result:
  assumes "noteSequenceSelectorButton s \<noteq> None" "noteSequenceSelectorDialog s \<noteq> None"
  shows "\<exists>s'. noteSequenceDivClick cat k t s = Inr s' \<and>
     selectedNoteSequenceThemeKey s' =
       (if reflected (KStr k) = attribute s then KStr k else keyOfAttribute (reflected (KStr k))) \<and>
     selectedNoteSequenceTheme s' =
       (if reflected (KStr k) = attribute s then TTheme t
        else resolvedTheme cat (keyOfAttribute (reflected (KStr k)))) \<and>
     attribute s' = reflected (KStr k) \<and>
     noteSequenceSelectorButton s' \<noteq> None \<and>
     noteSequenceSelectorDialog s' = Some False \<and>
     noteSequencesContainer s' = noteSequencesContainer s \<and>
     toggleMoreInfoCheckbox s' = toggleMoreInfoCheckbox s \<and>
     listeners s' = listeners s \<and>
     notifications (log s') = notifications (log s) @
       (if reflected (KStr k) \<noteq> attribute s \<and> k \<noteq> []
        then [(KStr k, lookupTheme cat k)] else [])"
proof -
  let ?s0 = "s\<lparr>selectedNoteSequenceThemeKey := KStr k, selectedNoteSequenceTheme := TTheme t\<rparr>"
  let ?s1 = "?s0\<lparr>noteSequenceSelectorButton := Some (buttonText (TTheme t))\<rparr>"
  from assms(1) have lbl: "updateNoteSequenceSelectorButtonText ?s0 = Inr ?s1"
    by (simp add: buttonText_update)
  have b: "noteSequenceSelectorButton ?s1 \<noteq> None" by simp
  from update_result [OF b, of cat] obtain s2 where
    s2: "updateSelectedNoteSequenceAttribute cat ?s1 = Inr s2"
      "selectedNoteSequenceThemeKey s2 =
       (if reflected (KStr k) = attribute s then KStr k else keyOfAttribute (reflected (KStr k)))"
      "selectedNoteSequenceTheme s2 =
       (if reflected (KStr k) = attribute s then TTheme t
        else resolvedTheme cat (keyOfAttribute (reflected (KStr k))))"
      "attribute s2 = reflected (KStr k)"
      "noteSequenceSelectorButton s2 \<noteq> None"
      "noteSequenceSelectorDialog s2 = noteSequenceSelectorDialog s"
      "noteSequencesContainer s2 = noteSequencesContainer s"
      "toggleMoreInfoCheckbox s2 = toggleMoreInfoCheckbox s"
      "listeners s2 = listeners s"
      "notifications (log s2) = notifications (log s) @
       (if reflected (KStr k) \<noteq> attribute s \<and> reflected (KStr k) \<noteq> None \<and>
           resolvedTheme cat (keyOfAttribute (reflected (KStr k))) \<noteq> TNull
        then [(keyOfAttribute (reflected (KStr k)),
               resolvedTheme cat (keyOfAttribute (reflected (KStr k))))]
        else [])"
    by auto
  from assms(2) s2(6) obtain d where d: "noteSequenceSelectorDialog s2 = Some d" by auto
  with lbl s2(1) have "noteSequenceDivClick cat k t s =
      Inr (s2\<lparr>noteSequenceSelectorDialog := Some False\<rparr>)"
    by (simp add: noteSequenceDivClick_def)
  with s2 show ?thesis by (simp add: resolvedTheme_def)
qed

lemma setter_inSync:
  assumes "inSync s" "set_selectedNoteSequenceThemeKey cat k s = Inr s'"
  shows "inSync s'"
proof -
  from assms(1) have b: "noteSequenceSelectorButton s \<noteq> None" by (simp add: inSync_def)
  from setter_result [OF b, of cat k] assms show ?thesis
    by (auto simp: inSync_def)
qed

lemma setAttribute_inSync:
  assumes "inSync s" "setAttribute cat v s = Inr s'"
  shows "inSync s'"
proof (cases "attribute s = Some v")
  case True
  with assms show ?thesis by (simp add: setAttribute_same)
next
  case False
  from assms(1) have b: "noteSequenceSelectorButton s \<noteq> None" by (simp add: inSync_def)
  from hostSetAttribute_result [OF b False, of cat] assms show ?thesis
    by (auto simp: inSync_def)
qed

lemma removeAttribute_inSync:
  assumes "inSync s" "removeAttribute cat s = Inr s'"
  shows "inSync s'"
proof (cases "attribute s = None")
  case True
  with assms show ?thesis by (simp add: removeAttribute_absent)
next
  case False
  from assms(1) have b: "noteSequenceSelectorButton s \<noteq> None" by (simp add: inSync_def)
  from hostRemoveAttribute_result [OF b False, of cat] assms show ?thesis
    by (auto simp: inSync_def)
qed

lemma click_inSync:
  assumes "inSync s" "noteSequenceDivClick cat k t s = Inr s'"
  shows "inSync s'"
proof -
  from assms(1) have b: "noteSequenceSelectorButton s \<noteq> None"
    and d: "noteSequenceSelectorDialog s \<noteq> None" by (simp_all add: inSync_def)
  from click_result [OF b d, of cat k t] assms show ?thesis
    by (auto simp: inSync_def)
qed

lemma change_inSync:
  assumes "inSync s" "toggleMoreInfoCheckboxChange b s = Inr s'"
  shows "inSync s'"
  using assms
  by (auto simp: toggleMoreInfoCheckboxChange_def updateMoreInfoVisibility_def Let_def inSync_def
      split: option.splits if_splits)

lemma populate_fields:
  assumes "populateNoteSequences cat s = Inr s'"
  shows "selectedNoteSequenceThemeKey s' = selectedNoteSequenceThemeKey s"
    "selectedNoteSequenceTheme s' = selectedNoteSequenceTheme s"
    "attribute s' = attribute s"
    "noteSequenceSelectorButton s' = noteSequenceSelectorButton s"
    "noteSequenceSelectorDialog s' = noteSequenceSelectorDialog s"
  using assms
  by (auto simp: populateNoteSequences_def split: option.splits sum.splits)

lemma connect_inSync:
  assumes "inSync s" "connectedCallback cat s = Inr s'"
  shows "inSync s'"
proof (cases "noteSequencesContainer s \<noteq> None \<and> toggleMoreInfoCheckbox s \<noteq> None")
  case False
  with assms show ?thesis
    by (auto simp: connectedCallback_def Let_def inSync_def)
next
  case True
  let ?n = "controllersCreated s"
  let ?s1 = "s\<lparr>abortController := Some ?n, controllersCreated := Suc ?n,
      listeners := listeners s @ [(?n, ShowModal), (?n, CloseDialog), (?n, ToggleMoreInfo)]\<rparr>"
  from assms True obtain s2 where
    s2: "populateNoteSequences cat ?s1 = Inr s2"
    and rest: "(case updateNoteSequenceSelectorButtonText s2 of
                 Inl e \<Rightarrow> Inl e
               | Inr s3 \<Rightarrow> updateSelectedNoteSequenceAttribute cat s3) = Inr s'"
    by (auto simp: connectedCallback_def Let_def inSync_def split: if_splits sum.splits
        simp del: not_None_eq)
  from populate_fields [OF s2] assms(1) have i2: "inSync s2" by (simp add: inSync_def)
  then have b2: "noteSequenceSelectorButton s2 \<noteq> None" by (simp add: inSync_def)
  let ?s3 = "s2\<lparr>noteSequenceSelectorButton := Some (buttonText (selectedNoteSequenceTheme s2))\<rparr>"
  from i2 have i3: "inSync ?s3" by (simp add: inSync_def)
  then have "updateSelectedNoteSequenceAttribute cat ?s3 = Inr ?s3"
    by (intro update_in_sync) (simp add: inSync_def)
  with rest b2 have "s' = ?s3" by (simp add: buttonText_update)
  with i3 show ?thesis by simp
qed

lemma random_inSync:
  assumes "inSync s" "setRandomNoteSequence cat r s = Inr s'"
  shows "inSync s'"
  using assms setter_inSync by (auto simp: setRandomNoteSequence_def Let_def split: if_splits)

lemma step_inSync:
  assumes "inSync s" "step cat opn s = Inr s'"
  shows "inSync s'"
proof (cases opn)
  case (SetProperty k)
  with assms show ?thesis by (auto simp: step_def intro: setter_inSync)
next
  case (HostSetAttribute v)
  with assms show ?thesis by (auto simp: step_def intro: setAttribute_inSync)
next
  case HostRemoveAttribute
  with assms show ?thesis by (auto simp: step_def intro: removeAttribute_inSync)
next
  case (ClickNoteSequenceDiv i j)
  with assms show ?thesis
    by (auto simp: step_def split: option.splits if_splits intro: click_inSync)
next
  case (SetRandom r)
  with assms show ?thesis by (auto simp: step_def intro: random_inSync)
next
  case (ChangeCheckbox b)
  with assms show ?thesis by (auto simp: step_def intro: change_inSync)
next
  case Connect
  with assms show ?thesis by (auto simp: step_def intro: connect_inSync)
next
  case Disconnect
  with assms show ?thesis
    by (auto simp: step_def disconnectedCallback_def inSync_def split: option.splits)
qed

lemma run_inSync: "inSync s \<Longrightarrow> run cat ops s = Inr s' \<Longrightarrow> inSync s'"
proof (induction ops arbitrary: s)
  case Nil
  then show ?case by simp
next
  case (Cons opn ops)
  then show ?case by (auto split: sum.splits dest: step_inSync)
qed

lemma constructor_inSync: "inSync constructor"
  by (simp add: inSync_def constructor_def)

section \<open>Notifications\<close>

text \<open>
  C2: in the state reached by any run of operations on a freshly constructed element,
  clearing the selection (assigning null, or removing the attribute) emits no notification,
  and changing the selection to a catalog key other than the stored one, by the property, by
  the attribute or by a click on its entry, emits exactly one notification, whose key and
  theme are those of the new selection state.
\<close>

theorem notification_per_change:
  assumes "run cat ops constructor = Inr s"
    and "[] \<notin> fst ` set (allNoteSequenceThemes cat)"
    and "map_of (allNoteSequenceThemes cat) k = Some t"
    and "selectedNoteSequenceThemeKey s \<noteq> KStr k"
  shows "(\<exists>s'. set_selectedNoteSequenceThemeKey cat KNull s = Inr s' \<and>
        notifications (log s') = notifications (log s)) \<and>
     (\<exists>s'. removeAttribute cat s = Inr s' \<and>
        notifications (log s') = notifications (log s)) \<and>
     (\<exists>s'. set_selectedNoteSequenceThemeKey cat (KStr k) s = Inr s' \<and>
        notifications (log s') = notifications (log s) @ [(KStr k, TTheme t)] \<and>
        selectedNoteSequenceThemeKey s' = KStr k \<and> selectedNoteSequenceTheme s' = TTheme t) \<and>
     (\<exists>s'. setAttribute cat k s = Inr s' \<and>
        notifications (log s') = notifications (log s) @ [(KStr k, TTheme t)] \<and>
        selectedNoteSequenceThemeKey s' = KStr k \<and> selectedNoteSequenceTheme s' = TTheme t) \<and>
     (\<exists>s'. noteSequenceDivClick cat k t s = Inr s' \<and>
        notifications (log s') = notifications (log s) @ [(KStr k, TTheme t)] \<and>
        selectedNoteSequenceThemeKey s' = KStr k \<and> selectedNoteSequenceTheme s' = TTheme t)"
proof -
  from assms(1) have inv: "inSync s" using constructor_inSync by (rule run_inSync [rotated])
  then have b: "noteSequenceSelectorButton s \<noteq> None"
    and d: "noteSequenceSelectorDialog s \<noteq> None"
    and a: "attribute s = reflected (selectedNoteSequenceThemeKey s)"
    by (simp_all add: inSync_def)
  from assms(3) have "k \<in> fst ` set (allNoteSequenceThemes cat)"
    by (metis domI dom_map_of_conv_image_fst)
  with assms(2) have k: "k \<noteq> []" by blast
  then have r: "reflected (KStr k) = Some k" by simp
  from k assms(3) have th: "resolvedTheme cat (KStr k) = TTheme t" "lookupTheme cat k = TTheme t"
    by (simp_all add: resolvedTheme_def lookupTheme_def)
  from a assms(4) have na: "attribute s \<noteq> Some k"
    by (cases "selectedNoteSequenceThemeKey s") (auto split: if_splits)
  have 1: "\<exists>s'. set_selectedNoteSequenceThemeKey cat KNull s = Inr s' \<and>
        notifications (log s') = notifications (log s)"
    using setter_result [OF b, of cat KNull] by auto
  have 2: "\<exists>s'. removeAttribute cat s = Inr s' \<and>
        notifications (log s') = notifications (log s)"
  proof (cases "attribute s = None")
    case True
    then show ?thesis by (simp add: removeAttribute_absent)
  next
    case False
    from hostRemoveAttribute_result [OF b False, of cat] show ?thesis by blast
  qed
  have 3: "\<exists>s'. set_selectedNoteSequenceThemeKey cat (KStr k) s = Inr s' \<and>
        notifications (log s') = notifications (log s) @ [(KStr k, TTheme t)] \<and>
        selectedNoteSequenceThemeKey s' = KStr k \<and> selectedNoteSequenceTheme s' = TTheme t"
    using setter_result [OF b, of cat "KStr k"] r th na by auto
  have 4: "\<exists>s'. setAttribute cat k s = Inr s' \<and>
        notifications (log s') = notifications (log s) @ [(KStr k, TTheme t)] \<and>
        selectedNoteSequenceThemeKey s' = KStr k \<and> selectedNoteSequenceTheme s' = TTheme t"
    using hostSetAttribute_result [OF b na, of cat] r th k by auto
  have 5: "\<exists>s'. noteSequenceDivClick cat k t s = Inr s' \<and>
        notifications (log s') = notifications (log s) @ [(KStr k, TTheme t)] \<and>
        selectedNoteSequenceThemeKey s' = KStr k \<and> selectedNoteSequenceTheme s' = TTheme t"
    using click_result [OF b d, of cat k t] r th na k by auto
  from 1 2 3 4 5 show ?thesis by blast
qed

theorem notification_per_change_witness:
  "run demoCatalog [SetProperty (KStr ''ionian'')] constructor = Inr ionianSelected \<and>
   [] \<notin> fst ` set (allNoteSequenceThemes demoCatalog) \<and>
   map_of (allNoteSequenceThemes demoCatalog) ''dorian'' = Some dorian \<and>
   selectedNoteSequenceThemeKey ionianSelected \<noteq> KStr ''dorian'' \<and>
   notifications (log ionianSelected) = [(KStr ''ionian'', TTheme ionian)] \<and>
   (\<exists>s'. set_selectedNoteSequenceThemeKey demoCatalog KNull ionianSelected = Inr s' \<and>
      notifications (log s') = [(KStr ''ionian'', TTheme ionian)]) \<and>
   (\<exists>s'. removeAttribute demoCatalog ionianSelected = Inr s' \<and>
      notifications (log s') = [(KStr ''ionian'', TTheme ionian)]) \<and>
   (\<exists>s'. set_selectedNoteSequenceThemeKey demoCatalog (KStr ''dorian'') ionianSelected = Inr s' \<and>
      notifications (log s') =
        [(KStr ''ionian'', TTheme ionian), (KStr ''dorian'', TTheme dorian)] \<and>
      selectedNoteSequenceThemeKey s' = KStr ''dorian'' \<and>
      selectedNoteSequenceTheme s' = TTheme dorian) \<and>
   (\<exists>s'. setAttribute demoCatalog ''dorian'' ionianSelected = Inr s' \<and>
      notifications (log s') =
        [(KStr ''ionian'', TTheme ionian), (KStr ''dorian'', TTheme dorian)] \<and>
      selectedNoteSequenceThemeKey s' = KStr ''dorian'' \<and>
      selectedNoteSequenceTheme s' = TTheme dorian) \<and>
   (\<exists>s'. noteSequenceDivClick demoCatalog ''dorian'' dorian ionianSelected = Inr s' \<and>
      notifications (log s') =
        [(KStr ''ionian'', TTheme ionian), (KStr ''dorian'', TTheme dorian)] \<and>
      selectedNoteSequenceThemeKey s' = KStr ''dorian'' \<and>
      selectedNoteSequenceTheme s' = TTheme dorian)"
proof -
  have a: "run demoCatalog [SetProperty (KStr ''ionian'')] constructor = Inr ionianSelected"
    by (simp add: step_def ionian_selected)
  have b: "[] \<notin> fst ` set (allNoteSequenceThemes demoCatalog)" by (simp add: demoCatalog_def)
  have c: "map_of (allNoteSequenceThemes demoCatalog) ''dorian'' = Some dorian"
    by (simp add: demoCatalog_def)
  have d: "selectedNoteSequenceThemeKey ionianSelected \<noteq> KStr ''dorian''"
    by (simp add: ionianSelected_def)
  have e: "notifications (log ionianSelected) = [(KStr ''ionian'', TTheme ionian)]"
    by (simp add: ionianSelected_def)
  from notification_per_change [OF a b c d] a b c d e show ?thesis by simp
qed

section \<open>Consistency of key and theme\<close>

text \<open>
  C5, as stated, fails: assigning the empty string to a fresh element stores a non-null
  key with a null theme, and assigning a key outside the catalog stores the key with a theme
  that is no record of the catalog.
\<close>

theorem selection_consistent_counterexample:
  "map_sum id selectedNoteSequenceThemeKey
     (run demoCatalog [SetProperty (KStr [])] constructor) = Inr (KStr []) \<and>
   map_sum id selectedNoteSequenceTheme
     (run demoCatalog [SetProperty (KStr [])] constructor) = Inr TNull \<and>
   map_sum id (consistentSelection demoCatalog)
     (run demoCatalog [SetProperty (KStr [])] constructor) = Inr False \<and>
   map_sum id selectedNoteSequenceThemeKey
     (run demoCatalog [SetProperty (KStr ''blues'')] constructor) = Inr (KStr ''blues'') \<and>
   map_sum id selectedNoteSequenceTheme
     (run demoCatalog [SetProperty (KStr ''blues'')] constructor) = Inr TUndefined \<and>
   map_sum id (consistentSelection demoCatalog)
     (run demoCatalog [SetProperty (KStr ''blues'')] constructor) = Inr False"
  by (simp add: demo_defs selection_simps consistentSelection_def)

text \<open>
  C5, amended: after the selection is set to null or to a key of the flattened catalog, by
  the property or by a change of the attribute, or by a click on an entry that carries the
  flattened catalog's record for its key, the stored key is non-null exactly when the stored
  theme is, and the theme is then the catalog's record for the key.
\<close>

theorem selection_consistent:
  assumes "noteSequenceSelectorButton s \<noteq> None"
    and "noteSequenceSelectorDialog s \<noteq> None"
    and "[] \<notin> fst ` set (allNoteSequenceThemes cat)"
    and "map_of (allNoteSequenceThemes cat) k = Some t"
  shows "(\<exists>s'. set_selectedNoteSequenceThemeKey cat KNull s = Inr s' \<and>
        consistentSelection cat s') \<and>
     (\<exists>s'. set_selectedNoteSequenceThemeKey cat (KStr k) s = Inr s' \<and>
        consistentSelection cat s') \<and>
     (attribute s \<noteq> Some k \<longrightarrow>
        (\<exists>s'. setAttribute cat k s = Inr s' \<and> consistentSelection cat s')) \<and>
     (attribute s \<noteq> None \<longrightarrow>
        (\<exists>s'. removeAttribute cat s = Inr s' \<and> consistentSelection cat s')) \<and>
     (\<exists>s'. noteSequenceDivClick cat k t s = Inr s' \<and> consistentSelection cat s')"
proof -
  note b = assms(1) and d = assms(2)
  from assms(4) have "k \<in> fst ` set (allNoteSequenceThemes cat)"
    by (metis domI dom_map_of_conv_image_fst)
  with assms(3) have k: "k \<noteq> []" by blast
  then have r: "reflected (KStr k) = Some k" by simp
  from k assms(4) have th: "resolvedTheme cat (KStr k) = TTheme t"
    by (simp add: resolvedTheme_def lookupTheme_def)
  have 1: "\<exists>s'. set_selectedNoteSequenceThemeKey cat KNull s = Inr s' \<and>
        consistentSelection cat s'"
    using setter_result [OF b, of cat KNull]
    by (auto simp: consistentSelection_def resolvedTheme_def)
  have 2: "\<exists>s'. set_selectedNoteSequenceThemeKey cat (KStr k) s = Inr s' \<and>
        consistentSelection cat s'"
    using setter_result [OF b, of cat "KStr k"] r th assms(4)
    by (auto simp: consistentSelection_def)
  have 3: "\<exists>s'. setAttribute cat k s = Inr s' \<and> consistentSelection cat s'"
    if "attribute s \<noteq> Some k"
    using hostSetAttribute_result [OF b that, of cat] r th assms(4)
    by (auto simp: consistentSelection_def)
  have 4: "\<exists>s'. removeAttribute cat s = Inr s' \<and> consistentSelection cat s'"
    if "attribute s \<noteq> None"
    using hostRemoveAttribute_result [OF b that, of cat]
    by (auto simp: consistentSelection_def)
  have 5: "\<exists>s'. noteSequenceDivClick cat k t s = Inr s' \<and> consistentSelection cat s'"
    using click_result [OF b d, of cat k t] r th assms(4)
    by (auto simp: consistentSelection_def)
  from 1 2 3 4 5 show ?thesis by blast
qed

theorem selection_consistent_witness:
  "noteSequenceSelectorButton ionianSelected \<noteq> None \<and>
   noteSequenceSelectorDialog ionianSelected \<noteq> None \<and>
   [] \<notin> fst ` set (allNoteSequenceThemes demoCatalog) \<and>
   map_of (allNoteSequenceThemes demoCatalog) ''dorian'' = Some dorian \<and>
   attribute ionianSelected \<noteq> Some ''dorian'' \<and>
   attribute ionianSelected \<noteq> None \<and>
   (\<exists>s'. set_selectedNoteSequenceThemeKey demoCatalog KNull ionianSelected = Inr s' \<and>
      consistentSelection demoCatalog s') \<and>
   (\<exists>s'. set_selectedNoteSequenceThemeKey demoCatalog (KStr ''dorian'') ionianSelected = Inr s' \<and>
      consistentSelection demoCatalog s') \<and>
   (\<exists>s'. setAttribute demoCatalog ''dorian'' ionianSelected = Inr s' \<and>
      consistentSelection demoCatalog s') \<and>
   (\<exists>s'. removeAttribute demoCatalog ionianSelected = Inr s' \<and>
      consistentSelection demoCatalog s') \<and>
   (\<exists>s'. noteSequenceDivClick demoCatalog ''dorian'' dorian ionianSelected = Inr s' \<and>
      consistentSelection demoCatalog s')"
proof -
  have a: "noteSequenceSelectorButton ionianSelected \<noteq> None"
    by (simp add: ionianSelected_def)
  have b: "noteSequenceSelectorDialog ionianSelected \<noteq> None"
    by (simp add: ionianSelected_def constructor_def)
  have c: "[] \<notin> fst ` set (allNoteSequenceThemes demoCatalog)" by (simp add: demoCatalog_def)
  have d: "map_of (allNoteSequenceThemes demoCatalog) ''dorian'' = Some dorian"
    by (simp add: demoCatalog_def)
  have e: "attribute ionianSelected \<noteq> Some ''dorian''" by (simp add: ionianSelected_def)
  have f: "attribute ionianSelected \<noteq> None" by (simp add: ionianSelected_def)
  from selection_consistent [OF a b c d] a b c d e f show ?thesis by simp
qed

end
